theory Spec2Isabelle
  imports Complex_Main
begin

section \<open>Python values, exceptions and effects\<close>

text \<open>
  The program is \<^verbatim>\<open>tools/paper_with_code/Self_Instruct/gpt_api.py\<close>: the function
  \<^verbatim>\<open>make_requests\<close> and the script body under \<^verbatim>\<open>if __name__ == "__main__"\<close>.
  Python values are untyped, so the values the program handles are one datatype: JSON
  values (null, integers, strings, arrays, objects with string keys) and the two kinds of
  object the OpenAI client returns, a completion and its choices.
\<close>

datatype choice = CompletionChoice (choice_text: string)

datatype completion = Completion (choices: "choice list")

datatype pyval =
    PyNone
  | PyInt int
  | PyStr string
  | PyList "pyval list"
  | PyDict "(string \<times> pyval) list"
  | PyChoice choice
  | PyCompletion completion

text \<open>
  Exceptions are values. The first three are the failures of the remote service that the
  specification calls transient, the next two the non-transient ones; the rest are raised
  by Python itself or by the \<^verbatim>\<open>json\<close> module.
\<close>

datatype exn =
    RateLimitError
  | APITimeoutError
  | InternalServerError
  | AuthenticationError
  | BadRequestError
  | TypeError
  | NameError
  | ValueError
  | KeyError
  | FileNotFoundError
  | JSONDecodeError

type_synonym 'a result = "exn + 'a"

fun transient :: "exn \<Rightarrow> bool" where
  "transient RateLimitError = True"
| "transient APITimeoutError = True"
| "transient InternalServerError = True"
| "transient _ = False"

text \<open>The generation parameters that \<^verbatim>\<open>make_requests\<close> only passes on to the service.\<close>

record sampling =
  max_tokens :: int
  temperature :: real
  top_p :: real
  frequency_penalty :: real
  presence_penalty :: real
  stop_sequences :: "string list"
  logprobs :: int
  best_of :: int

text \<open>One call of \<^verbatim>\<open>client.completions.create\<close> with its keyword arguments.\<close>

datatype request =
  CompletionsCreate (req_model: string) (req_prompt: pyval) (req_sampling: sampling) (req_n: int)

text \<open>
  What the program does to the outside world is recorded in a trace, in the order it
  happens: a call of the remote service, a wait (\<^verbatim>\<open>time.sleep\<close>, the module is
  imported) and a reading of the clock (\<^verbatim>\<open>datetime.now()\<close>).
\<close>

datatype event = is_Create: Create request | is_Sleep: Sleep real | is_Now: Now

type_synonym trace = "event list"

definition invocations :: "trace \<Rightarrow> nat" where
  "invocations tr = length (filter is_Create tr)"

definition clock_reads :: "trace \<Rightarrow> nat" where
  "clock_reads tr = length (filter is_Now tr)"

definition sleeps :: "trace \<Rightarrow> event list" where
  "sleeps tr = filter is_Sleep tr"

text \<open>
  The surroundings of a run: the model name read from the process environment, the remote
  service (its answer to a request may depend on how many calls came before), the clock
  (the text of \<^verbatim>\<open>str(datetime.now())\<close> at each reading), and the two functions of the
  \<^verbatim>\<open>json\<close> module, which work on one line of text.
\<close>

record env =
  model_name :: string
  create :: "nat \<Rightarrow> request \<Rightarrow> completion result"
  now :: "nat \<Rightarrow> string"
  loads :: "string \<Rightarrow> pyval result"
  dumps :: "pyval \<Rightarrow> string result"

section \<open>Slices and ranges\<close>

text \<open>
  \<^verbatim>\<open>xs[a:b]\<close>: a negative bound counts from the end, and both bounds are clipped to the
  list, so a slice never raises.
\<close>

definition slice_index :: "int \<Rightarrow> nat \<Rightarrow> nat" where
  "slice_index i len = (if i < 0 then nat (max (i + int len) 0) else min (nat i) len)"

definition py_slice :: "'a list \<Rightarrow> int \<Rightarrow> int \<Rightarrow> 'a list" where
  "py_slice xs a b =
     (let lo = slice_index a (length xs); hi = slice_index b (length xs)
      in take (hi - lo) (drop lo xs))"

section \<open>make_requests\<close>

text \<open>
  Lines 55 to 71. \<^verbatim>\<open>retry_cnt\<close> is 0 and is never incremented; the body of the
  \<^verbatim>\<open>while retry_cnt <= retries\<close> loop ends in an unconditional \<^verbatim>\<open>break\<close>, so the
  body runs once when \<^verbatim>\<open>0 <= retries\<close> and not at all otherwise. There is no
  \<^verbatim>\<open>try\<close>: an exception of the remote call leaves the function.
\<close>

definition request_loop :: "env \<Rightarrow> request \<Rightarrow> int \<Rightarrow> trace \<Rightarrow> completion option result \<times> trace" where
  "request_loop e req retries tr =
     (if 0 \<le> retries then
        (case create e (invocations tr) req of
           Inl err \<Rightarrow> (Inl err, tr @ [Create req])
         | Inr response \<Rightarrow> (Inr (Some response), tr @ [Create req]))
      else (Inr None, tr))"

text \<open>
  Lines 74 to 82, the loop over \<^verbatim>\<open>enumerate(prompts)\<close>; \<open>j\<close> is the index of the
  first prompt of the list still to be handled. In \<^verbatim>\<open>... if response else None\<close> a
  completion object counts as true and \<^verbatim>\<open>None\<close> as false.
\<close>

definition response_field :: "completion option \<Rightarrow> int \<Rightarrow> int \<Rightarrow> pyval" where
  "response_field response j n =
     (case response of
        Some r \<Rightarrow> PyDict [(''choices'', PyList (map PyChoice (py_slice (choices r) (j * n) ((j + 1) * n))))]
      | None \<Rightarrow> PyNone)"

fun results_loop :: "env \<Rightarrow> pyval list \<Rightarrow> int \<Rightarrow> int \<Rightarrow> completion option \<Rightarrow> trace \<Rightarrow> pyval list \<times> trace" where
  "results_loop e [] j n response tr = ([], tr)"
| "results_loop e (p # ps) j n response tr =
     (let data = PyDict [(''prompt'', p),
                         (''response'', response_field response j n),
                         (''created_at'', PyStr (now e (clock_reads tr)))]
      in case results_loop e ps (j + 1) n response (tr @ [Now]) of
           (results, tr') \<Rightarrow> (data # results, tr'))"

definition make_requests ::
  "env \<Rightarrow> pyval \<Rightarrow> sampling \<Rightarrow> int \<Rightarrow> int \<Rightarrow> trace \<Rightarrow> pyval list result \<times> trace" where
  "make_requests e prompts sp n retries tr =
     (case request_loop e (CompletionsCreate (model_name e) prompts sp n) retries tr of
        (Inl err, tr1) \<Rightarrow> (Inl err, tr1)
      | (Inr response, tr1) \<Rightarrow>
          (case prompts of
             PyList ps \<Rightarrow>
               (case results_loop e ps 0 n response tr1 of
                  (results, tr2) \<Rightarrow> (Inr results, tr2))
           | _ \<Rightarrow>
               (Inr [PyDict [(''prompt'', prompts),
                             (''response'', (case response of Some r \<Rightarrow> PyCompletion r | None \<Rightarrow> PyNone)),
                             (''created_at'', PyStr (now e (clock_reads tr1)))]],
                tr1 @ [Now])))"

section \<open>The script body\<close>

subsection \<open>Text and dictionaries\<close>

definition endswith :: "string \<Rightarrow> string \<Rightarrow> bool" where
  "endswith s suffix =
     (length suffix \<le> length s \<and> drop (length s - length suffix) s = suffix)"

text \<open>
  \<^verbatim>\<open>str.strip()\<close> removes the characters for which \<^verbatim>\<open>isspace()\<close> holds. A
  character of a string is a code point below 256 here; among those, these twelve are
  white space.
\<close>

definition is_space :: "char \<Rightarrow> bool" where
  "is_space c =
     (c \<in> set [CHR 0x09, CHR 0x0A, CHR 0x0B, CHR 0x0C, CHR 0x0D,
               CHR 0x1C, CHR 0x1D, CHR 0x1E, CHR 0x1F, CHR 0x20,
               CHR 0x85, CHR 0xA0])"

definition strip :: "string \<Rightarrow> string" where
  "strip s = rev (dropWhile is_space (rev (dropWhile is_space s)))"

text \<open>
  \<^verbatim>\<open>.replace("\\n", "\n")\<close>: every occurrence, from the left, of a backslash followed
  by the letter n becomes one newline character.
\<close>

fun replace_backslash_n :: "string \<Rightarrow> string" where
  "replace_backslash_n (c # d # cs) =
     (if c = CHR 0x5C \<and> d = CHR ''n'' then CHR 0x0A # replace_backslash_n cs
      else c # replace_backslash_n (d # cs))"
| "replace_backslash_n cs = cs"

text \<open>\<^verbatim>\<open>data["prompt"]\<close>: only a dictionary can be indexed by a string.\<close>

fun subscript :: "pyval \<Rightarrow> string \<Rightarrow> pyval result" where
  "subscript (PyDict items) k = (case map_of items k of Some v \<Rightarrow> Inr v | None \<Rightarrow> Inl KeyError)"
| "subscript _ k = Inl TypeError"

text \<open>A dictionary key has to be hashable: lists, dictionaries and the client's objects are not.\<close>

fun hashable :: "pyval \<Rightarrow> bool" where
  "hashable PyNone = True"
| "hashable (PyInt i) = True"
| "hashable (PyStr s) = True"
| "hashable _ = False"

text \<open>
  \<^verbatim>\<open>range(start, stop, step)\<close> as the list of its values; a step of 0 raises
  \<^verbatim>\<open>ValueError\<close>.
\<close>

function range_from :: "int \<Rightarrow> int \<Rightarrow> int \<Rightarrow> int list" where
  "range_from i stop step =
     (if (0 < step \<and> i < stop) \<or> (step < 0 \<and> stop < i)
      then i # range_from (i + step) stop step else [])"
  by pat_completeness auto
termination
  by (relation "measure (\<lambda>(i, stop, step). nat (if 0 < step then stop - i else i - stop))") auto

declare range_from.simps [simp del]

definition py_range :: "int \<Rightarrow> int \<Rightarrow> int \<Rightarrow> int list result" where
  "py_range start stop step = (if step = 0 then Inl ValueError else Inr (range_from start stop step))"

subsection \<open>Files, arguments and names\<close>

text \<open>
  A file is its lines (without the line terminator), and the file system maps a path to
  a file. The script's first three statements (the random seed, the argument parser and
  \<^verbatim>\<open>os.makedirs\<close>) prepare the run and are not modelled: the parsed arguments are a
  parameter.
\<close>

type_synonym files = "string \<rightharpoonup> string list"

record args =
  input_file :: string
  output_file :: string
  engine :: string
  generation :: sampling
  arg_n :: int
  use_existing_responses :: bool
  request_batch_size :: int

text \<open>
  Lines 189 to 193 bind one of two names: the \<^verbatim>\<open>.jsonl\<close> branch assigns
  \<^verbatim>\<open>all_prompts\<close>, the other branch assigns \<^verbatim>\<open>all_prompt\<close>. A name that was never
  assigned is \<open>None\<close> here, and reading it raises \<^verbatim>\<open>NameError\<close>.
\<close>

record globals =
  all_prompts :: "pyval list option"
  all_prompt :: "pyval list option"

subsection \<open>Lines 181 to 186: the existing responses\<close>

fun read_existing :: "env \<Rightarrow> string list \<Rightarrow> (pyval \<rightharpoonup> pyval) \<Rightarrow> (pyval \<rightharpoonup> pyval) result" where
  "read_existing e [] existing_responses = Inr existing_responses"
| "read_existing e (line # lines) existing_responses =
     (case loads e line of
        Inl err \<Rightarrow> Inl err
      | Inr data \<Rightarrow>
          (case subscript data ''prompt'' of
             Inl err \<Rightarrow> Inl err
           | Inr key \<Rightarrow>
               if hashable key then read_existing e lines (existing_responses(key \<mapsto> data))
               else Inl TypeError))"

definition load_existing :: "env \<Rightarrow> args \<Rightarrow> files \<Rightarrow> (pyval \<rightharpoonup> pyval) result" where
  "load_existing e a fs =
     (case fs (output_file a) of
        None \<Rightarrow> Inr Map.empty
      | Some lines \<Rightarrow>
          if use_existing_responses a then read_existing e lines Map.empty else Inr Map.empty)"

subsection \<open>Lines 189 to 193: the prompts\<close>

fun jsonl_prompts :: "env \<Rightarrow> string list \<Rightarrow> pyval list result" where
  "jsonl_prompts e [] = Inr []"
| "jsonl_prompts e (line # lines) =
     (case loads e line of
        Inl err \<Rightarrow> Inl err
      | Inr data \<Rightarrow>
          (case subscript data ''prompt'' of
             Inl err \<Rightarrow> Inl err
           | Inr p \<Rightarrow>
               (case jsonl_prompts e lines of
                  Inl err \<Rightarrow> Inl err
                | Inr ps \<Rightarrow> Inr (p # ps))))"

definition text_prompts :: "string list \<Rightarrow> pyval list" where
  "text_prompts lines = map (\<lambda>line. PyStr (replace_backslash_n (strip line))) lines"

definition read_prompts :: "env \<Rightarrow> args \<Rightarrow> files \<Rightarrow> globals result" where
  "read_prompts e a fs =
     (case fs (input_file a) of
        None \<Rightarrow> Inl FileNotFoundError
      | Some lines \<Rightarrow>
          if endswith (input_file a) ''.jsonl'' then
            (case jsonl_prompts e lines of
               Inl err \<Rightarrow> Inl err
             | Inr ps \<Rightarrow> Inr \<lparr>all_prompts = Some ps, all_prompt = None\<rparr>)
          else Inr \<lparr>all_prompts = None, all_prompt = Some (text_prompts lines)\<rparr>)"

subsection \<open>Lines 195 to 216: the batches\<close>

text \<open>
  Lines 196 and 197: the loop variable runs over \<^verbatim>\<open>range(0, len(all_prompts), size)\<close>
  and each batch is the slice \<^verbatim>\<open>all_prompts[i: i + size]\<close>. The batches the loop
  handles, in order:
\<close>

definition batches :: "'a list \<Rightarrow> int \<Rightarrow> 'a list list result" where
  "batches ps batch_size =
     (case py_range 0 (int (length ps)) batch_size of
        Inl err \<Rightarrow> Inl err
      | Inr starts \<Rightarrow> Inr (map (\<lambda>i. py_slice ps i (i + batch_size)) starts))"

text \<open>
  \<^verbatim>\<open>all(p in existing_responses for p in batch_prompts)\<close> stops at the first prompt
  that is not a key; looking a prompt up hashes it first.
\<close>

fun all_cached :: "(pyval \<rightharpoonup> pyval) \<Rightarrow> pyval list \<Rightarrow> bool result" where
  "all_cached existing_responses [] = Inr True"
| "all_cached existing_responses (p # ps) =
     (if \<not> hashable p then Inl TypeError
      else if existing_responses p = None then Inr False
      else all_cached existing_responses ps)"

text \<open>The two writing loops; \<open>out\<close> is the content of the open output file.\<close>

fun write_cached :: "env \<Rightarrow> (pyval \<rightharpoonup> pyval) \<Rightarrow> pyval list \<Rightarrow> string list \<Rightarrow> unit result \<times> string list" where
  "write_cached e existing_responses [] out = (Inr (), out)"
| "write_cached e existing_responses (p # ps) out =
     (case existing_responses p of
        None \<Rightarrow> (Inl KeyError, out)
      | Some data \<Rightarrow>
          (case dumps e data of
             Inl err \<Rightarrow> (Inl err, out)
           | Inr line \<Rightarrow> write_cached e existing_responses ps (out @ [line])))"

fun write_results :: "env \<Rightarrow> pyval list \<Rightarrow> string list \<Rightarrow> unit result \<times> string list" where
  "write_results e [] out = (Inr (), out)"
| "write_results e (data # results) out =
     (case dumps e data of
        Inl err \<Rightarrow> (Inl err, out)
      | Inr line \<Rightarrow> write_results e results (out @ [line]))"

text \<open>
  The call at lines 202 to 214 passes keyword arguments only. Python binds them to the
  parameters of \<^verbatim>\<open>make_requests\<close> (lines 32 to 34) before the body runs: a keyword
  that is no parameter, or a parameter without default that gets no value, raises
  \<^verbatim>\<open>TypeError\<close>.
\<close>

definition make_requests_parameters :: "string list" where
  "make_requests_parameters =
     [''prompts'', ''max_tokens'', ''temperature'', ''top_p'', ''frequency_penalty'',
      ''presence_penalty'', ''stop_sequences'', ''logprobs'', ''n'', ''best_of'',
      ''retries'', ''api_key'']"

definition make_requests_defaults :: "string list" where
  "make_requests_defaults = [''retries'', ''api_key'']"

definition call_keywords :: "string list" where
  "call_keywords =
     [''engine'', ''prompts'', ''max_tokens'', ''temperature'', ''top_p'', ''frequency_penalty'',
      ''presence_penalty'', ''stop_sequences'', ''logprobs'', ''n'', ''best_of'']"

definition binds :: "string list \<Rightarrow> string list \<Rightarrow> string list \<Rightarrow> bool" where
  "binds parameters defaults keywords =
     (list_all (\<lambda>k. k \<in> set parameters) keywords \<and>
      list_all (\<lambda>p. p \<in> set keywords \<or> p \<in> set defaults) parameters)"

fun batches_loop ::
  "env \<Rightarrow> args \<Rightarrow> (pyval \<rightharpoonup> pyval) \<Rightarrow> pyval list \<Rightarrow> int list \<Rightarrow> string list \<Rightarrow> trace
     \<Rightarrow> unit result \<times> string list \<times> trace" where
  "batches_loop e a existing_responses ps [] out tr = (Inr (), out, tr)"
| "batches_loop e a existing_responses ps (i # rest) out tr =
     (let batch_prompts = py_slice ps i (i + request_batch_size a) in
      case all_cached existing_responses batch_prompts of
        Inl err \<Rightarrow> (Inl err, out, tr)
      | Inr True \<Rightarrow>
          (case write_cached e existing_responses batch_prompts out of
             (Inl err, out') \<Rightarrow> (Inl err, out', tr)
           | (Inr u, out') \<Rightarrow> batches_loop e a existing_responses ps rest out' tr)
      | Inr False \<Rightarrow>
          if \<not> binds make_requests_parameters make_requests_defaults call_keywords
          then (Inl TypeError, out, tr)
          else
            (case make_requests e (PyList batch_prompts) (generation a) (arg_n a) 3 tr of
               (Inl err, tr') \<Rightarrow> (Inl err, out, tr')
             | (Inr results, tr') \<Rightarrow>
                 (case write_results e results out of
                    (Inl err, out') \<Rightarrow> (Inl err, out', tr')
                  | (Inr u, out') \<Rightarrow> batches_loop e a existing_responses ps rest out' tr')))"

text \<open>
  The script body from line 181 on. The output file is opened for writing, which empties
  it, before \<^verbatim>\<open>len(all_prompts)\<close> and the range are evaluated; leaving the
  \<^verbatim>\<open>with\<close> block, also by an exception, closes it with what was written.
\<close>

definition main :: "env \<Rightarrow> args \<Rightarrow> files \<Rightarrow> trace \<Rightarrow> unit result \<times> files \<times> trace" where
  "main e a fs tr =
     (case load_existing e a fs of
        Inl err \<Rightarrow> (Inl err, fs, tr)
      | Inr existing_responses \<Rightarrow>
          (case read_prompts e a fs of
             Inl err \<Rightarrow> (Inl err, fs, tr)
           | Inr g \<Rightarrow>
               (case all_prompts g of
                  None \<Rightarrow> (Inl NameError, fs(output_file a \<mapsto> []), tr)
                | Some ps \<Rightarrow>
                    (case py_range 0 (int (length ps)) (request_batch_size a) of
                       Inl err \<Rightarrow> (Inl err, fs(output_file a \<mapsto> []), tr)
                     | Inr starts \<Rightarrow>
                         (case batches_loop e a existing_responses ps starts [] tr of
                            (r, out, tr') \<Rightarrow> (r, fs(output_file a \<mapsto> out), tr'))))))"

section \<open>Example surroundings and inputs\<close>

text \<open>
  Concrete parameters, services, clocks and files, on which the theorems below are
  evaluated. The \<^verbatim>\<open>json\<close> functions of the examples are the module's functions cut
  down to the texts and values that occur in the examples.
\<close>

definition example_sampling :: sampling where
  "example_sampling =
     \<lparr>max_tokens = 500, temperature = 7 / 10, top_p = 1 / 2, frequency_penalty = 0,
      presence_penalty = 0, stop_sequences = [[CHR 0x0A, CHR 0x0A]], logprobs = 5, best_of = 1\<rparr>"

definition example_clock :: "nat \<Rightarrow> string" where
  "example_clock k = ''2024-01-01 00:00:00.'' @ replicate k (CHR ''1'')"

definition six_choices :: completion where
  "six_choices = Completion (map CompletionChoice [''c0'', ''c1'', ''c2'', ''c3'', ''c4'', ''c5''])"

definition fails_then_succeeds :: "nat \<Rightarrow> nat \<Rightarrow> request \<Rightarrow> completion result" where
  "fails_then_succeeds R k req = (if k < R then Inl RateLimitError else Inr six_choices)"

definition always_fails :: "nat \<Rightarrow> request \<Rightarrow> completion result" where
  "always_fails k req = Inl RateLimitError"

definition prompt_line :: "string \<Rightarrow> string" where
  \<open>prompt_line p = ''{"prompt": "'' @ p @ ''"}''\<close>

definition prompt_object :: "string \<Rightarrow> pyval" where
  "prompt_object p = PyDict [(''prompt'', PyStr p)]"

definition record_line :: "string \<Rightarrow> string \<Rightarrow> string \<Rightarrow> string" where
  \<open>record_line p c t =
     ''{"prompt": "'' @ p @ ''", "response": {"choices": [{"text": "'' @ c @
     ''"}]}, "created_at": "'' @ t @ ''"}''\<close>

definition record_object :: "string \<Rightarrow> string \<Rightarrow> string \<Rightarrow> pyval" where
  "record_object p c t =
     PyDict [(''prompt'', PyStr p),
             (''response'', PyDict [(''choices'', PyList [PyDict [(''text'', PyStr c)]])]),
             (''created_at'', PyStr t)]"

definition json_table :: "(string \<times> pyval) list" where
  "json_table =
     map (\<lambda>p. (prompt_line p, prompt_object p)) [''A'', ''B'', ''C'', ''D''] @
     map (\<lambda>(p, c, t). (record_line p c t, record_object p c t))
       [(''A'', ''a'', ''t0''), (''B'', ''b'', ''t1''), (''C'', ''c'', ''t2'')]"

definition example_loads :: "string \<Rightarrow> pyval result" where
  "example_loads s = (case map_of json_table s of Some v \<Rightarrow> Inr v | None \<Rightarrow> Inl JSONDecodeError)"

definition example_dumps :: "pyval \<Rightarrow> string result" where
  "example_dumps v =
     (case map_of (map (\<lambda>(s, v). (v, s)) json_table) v of Some s \<Rightarrow> Inr s | None \<Rightarrow> Inl TypeError)"

definition example_env :: "(nat \<Rightarrow> request \<Rightarrow> completion result) \<Rightarrow> env" where
  "example_env service =
     \<lparr>model_name = ''gpt-4o'', create = service, now = example_clock,
      loads = example_loads, dumps = example_dumps\<rparr>"

definition three_prompts :: "pyval list" where
  "three_prompts = [PyStr ''A'', PyStr ''B'', PyStr ''C'']"

text \<open>Inputs of the script body: parsed arguments and a file system with two files.\<close>

definition example_args :: "string \<Rightarrow> int \<Rightarrow> bool \<Rightarrow> args" where
  "example_args input batch reuse =
     \<lparr>input_file = input, output_file = ''out/responses.jsonl'', engine = ''davinci'',
      generation = example_sampling, arg_n = 1, use_existing_responses = reuse,
      request_batch_size = batch\<rparr>"

definition example_files :: "string \<Rightarrow> string list \<Rightarrow> string list option \<Rightarrow> files" where
  "example_files input lines existing =
     (Map.empty(input \<mapsto> lines))(''out/responses.jsonl'' := existing)"

section \<open>Notions used in the proofs\<close>

text \<open>
  The line a cache hit writes for a prompt, when the prompt has a record and the record
  can be serialised.
\<close>

definition cached_line :: "env \<Rightarrow> (pyval \<rightharpoonup> pyval) \<Rightarrow> pyval \<Rightarrow> string option" where
  "cached_line e existing_responses p =
     (case existing_responses p of
        None \<Rightarrow> None
      | Some data \<Rightarrow> (case dumps e data of Inl err \<Rightarrow> None | Inr line \<Rightarrow> Some line))"

text \<open>
  Every record of the store is filed under its own \<^verbatim>\<open>prompt\<close> field, and keys are
  hashable: what lines 184 to 186 establish.
\<close>

definition keyed :: "(pyval \<rightharpoonup> pyval) \<Rightarrow> bool" where
  "keyed ex = (\<forall>p d. ex p = Some d \<longrightarrow> hashable p \<and> subscript d ''prompt'' = Inr p)"

section \<open>Traces and the loop over the prompts\<close>

lemma invocations_append [simp]: "invocations (tr @ tr') = invocations tr + invocations tr'"
  by (simp add: invocations_def)

lemma clock_reads_append [simp]: "clock_reads (tr @ tr') = clock_reads tr + clock_reads tr'"
  by (simp add: clock_reads_def)

lemma sleeps_append [simp]: "sleeps (tr @ tr') = sleeps tr @ sleeps tr'"
  by (simp add: sleeps_def)

lemma trace_counts_single [simp]:
  "invocations [Create req] = 1" "invocations [Now] = 0" "invocations [Sleep s] = 0"
  "clock_reads [Create req] = 0" "clock_reads [Now] = 1" "clock_reads [Sleep s] = 0"
  "sleeps [Create req] = []" "sleeps [Now] = []"
  by (simp_all add: invocations_def clock_reads_def sleeps_def)

lemma trace_counts_replicate_Now [simp]:
  "invocations (replicate k Now) = 0" "sleeps (replicate k Now) = []"
  by (simp_all add: invocations_def sleeps_def)

lemma fst_results_loop_Cons:
  "fst (results_loop e (p # ps) j n response tr) =
     PyDict [(''prompt'', p), (''response'', response_field response j n),
             (''created_at'', PyStr (now e (clock_reads tr)))]
     # fst (results_loop e ps (j + 1) n response (tr @ [Now]))"
  by (simp split: prod.splits)

lemma snd_results_loop_Cons:
  "snd (results_loop e (p # ps) j n response tr) =
     snd (results_loop e ps (j + 1) n response (tr @ [Now]))"
  by (simp split: prod.splits)

lemma results_loop_trace: "snd (results_loop e ps j n response tr) = tr @ replicate (length ps) Now"
  by (induction ps arbitrary: j tr)
     (simp_all add: snd_results_loop_Cons replicate_app_Cons_same del: results_loop.simps(2))

lemma results_loop_length: "length (fst (results_loop e ps j n response tr)) = length ps"
  by (induction ps arbitrary: j tr)
     (simp_all add: fst_results_loop_Cons del: results_loop.simps(2))

lemma results_loop_nth:
  "k < length ps \<Longrightarrow>
   fst (results_loop e ps j n response tr) ! k =
     PyDict [(''prompt'', ps ! k),
             (''response'', response_field response (j + int k) n),
             (''created_at'', PyStr (now e (clock_reads tr + k)))]"
proof (induction ps arbitrary: j tr k)
  case Nil
  then show ?case by simp
next
  case (Cons p ps)
  show ?case
  proof (cases k)
    case 0
    then show ?thesis by (simp add: fst_results_loop_Cons del: results_loop.simps(2))
  next
    case (Suc k')
    with Cons.prems have "k' < length ps" by simp
    from Cons.IH [OF this, of "j + 1" "tr @ [Now]"] Suc show ?thesis
      by (simp add: fst_results_loop_Cons clock_reads_def algebra_simps del: results_loop.simps(2))
  qed
qed

lemma map_nth_upt_take_drop:
  "k \<le> length xs \<Longrightarrow> map ((!) xs) [m..<k] = take (k - m) (drop m xs)"
  by (rule nth_equalityI) auto

lemma py_slice_nth:
  assumes "0 \<le> a" "a \<le> b"
  shows "py_slice xs a b = map ((!) xs) [nat a ..< min (nat b) (length xs)]"
proof (cases "nat a \<le> length xs")
  case True
  with assms show ?thesis
    by (simp add: py_slice_def slice_index_def map_nth_upt_take_drop min_def Let_def)
next
  case False
  with assms show ?thesis
    by (simp add: py_slice_def slice_index_def min_def Let_def)
qed

lemma make_requests_list:
  "make_requests e (PyList ps) sp n retries tr =
     (case request_loop e (CompletionsCreate (model_name e) (PyList ps) sp n) retries tr of
        (Inl err, tr1) \<Rightarrow> (Inl err, tr1)
      | (Inr response, tr1) \<Rightarrow>
          (Inr (fst (results_loop e ps 0 n response tr1)), tr1 @ replicate (length ps) Now))"
  by (auto simp: make_requests_def case_prod_beta results_loop_trace split: sum.splits)

section \<open>The records of a batch\<close>

text \<open>
  Claim C4. A call with a list of prompts that reaches the service (\<open>0 \<le> retries\<close>)
  and gets a completion \<open>r\<close> back returns one record per prompt; for \<open>0 \<le> n\<close> the
  record at index \<open>j\<close> holds the prompt at index \<open>j\<close> and, as its choices, the elements of
  \<open>choices r\<close> at the indices from \<open>j * n\<close> (inclusive) to \<open>(j + 1) * n\<close>
  (exclusive), as far as the completion has them.
\<close>

theorem make_requests_slices:
  assumes "0 \<le> retries" and "0 \<le> n"
    and "create e (invocations tr) (CompletionsCreate (model_name e) (PyList ps) sp n) = Inr r"
    and "j < length ps"
  shows "\<exists>results tr'.
           make_requests e (PyList ps) sp n retries tr = (Inr results, tr') \<and>
           length results = length ps \<and>
           results ! j =
             PyDict [(''prompt'', ps ! j),
                     (''response'',
                      PyDict [(''choices'',
                               PyList (map PyChoice
                                 (map ((!) (choices r))
                                    [j * nat n ..< min ((j + 1) * nat n) (length (choices r))])))]),
                     (''created_at'', PyStr (now e (clock_reads tr + j)))]"
proof -
  have "0 \<le> int j * n" and "int j * n \<le> (int j + 1) * n"
    using assms(2) by (simp_all add: algebra_simps)
  then have slice: "py_slice (choices r) (int j * n) ((int j + 1) * n) =
      map ((!) (choices r)) [j * nat n ..< min ((j + 1) * nat n) (length (choices r))]"
    using assms(2) by (simp add: py_slice_nth nat_mult_distrib nat_add_distrib)
  show ?thesis
    using assms slice
    by (simp add: make_requests_list request_loop_def results_loop_length results_loop_nth
        response_field_def)
qed


theorem make_requests_slices_witness:
  "\<exists>results tr'.
     make_requests (example_env (fails_then_succeeds 0)) (PyList three_prompts) example_sampling 2 3 []
       = (Inr results, tr') \<and>
     length results = 3 \<and>
     results ! 1 =
       PyDict [(''prompt'', PyStr ''B''),
               (''response'',
                PyDict [(''choices'', PyList [PyChoice (CompletionChoice ''c2''),
                                              PyChoice (CompletionChoice ''c3'')])]),
               (''created_at'', PyStr ''2024-01-01 00:00:00.1'')]"
  using make_requests_slices [where retries = 3 and n = 2 and tr = "[]" and ps = three_prompts
      and e = "example_env (fails_then_succeeds 0)" and sp = example_sampling
      and r = six_choices and j = 1]
  by (simp add: example_env_def fails_then_succeeds_def three_prompts_def six_choices_def
      example_clock_def invocations_def clock_reads_def numeral_3_eq_3)

text \<open>
  Claim C9. A call with a single prompt string that reaches the service and gets a
  completion back returns a list of one record: the prompt, the whole completion object
  (no slice of its choices) and the time of creation. It calls the service once and reads
  the clock once.
\<close>

theorem make_requests_single_prompt:
  assumes "0 \<le> retries"
    and "create e (invocations tr) (CompletionsCreate (model_name e) (PyStr p) sp n) = Inr r"
  shows "make_requests e (PyStr p) sp n retries tr =
           (Inr [PyDict [(''prompt'', PyStr p),
                         (''response'', PyCompletion r),
                         (''created_at'', PyStr (now e (clock_reads tr)))]],
            tr @ [Create (CompletionsCreate (model_name e) (PyStr p) sp n), Now])"
  using assms by (simp add: make_requests_def request_loop_def)

theorem make_requests_single_prompt_witness:
  "make_requests (example_env (fails_then_succeeds 0)) (PyStr ''A'') example_sampling 2 3 [] =
     (Inr [PyDict [(''prompt'', PyStr ''A''),
                   (''response'', PyCompletion six_choices),
                   (''created_at'', PyStr ''2024-01-01 00:00:00.'')]],
      [Create (CompletionsCreate ''gpt-4o'' (PyStr ''A'') example_sampling 2), Now])"
  using make_requests_single_prompt [where retries = 3 and tr = "[]" and p = "''A''"
      and e = "example_env (fails_then_succeeds 0)" and sp = example_sampling and n = 2
      and r = six_choices]
  by (simp add: example_env_def fails_then_succeeds_def example_clock_def invocations_def
      clock_reads_def)

section \<open>The retry budget\<close>

text \<open>
  Claim C10. For any two retry budgets that are not negative, \<^verbatim>\<open>make_requests\<close>
  returns the same result and leaves the same trace; it calls the service exactly once,
  also when that call raises, and never waits.
\<close>

theorem make_requests_retries_irrelevant:
  assumes "0 \<le> r1" and "0 \<le> r2"
  shows "make_requests e prompts sp n r1 tr = make_requests e prompts sp n r2 tr \<and>
         invocations (snd (make_requests e prompts sp n r1 tr)) = invocations tr + 1 \<and>
         sleeps (snd (make_requests e prompts sp n r1 tr)) = sleeps tr"
  using assms
  by (cases prompts)
     (auto simp: make_requests_def request_loop_def case_prod_beta results_loop_trace
           split: sum.splits)

theorem make_requests_retries_irrelevant_witness:
  "make_requests (example_env (fails_then_succeeds 3)) (PyList three_prompts) example_sampling 2 0 []
     = make_requests (example_env (fails_then_succeeds 3)) (PyList three_prompts) example_sampling 2 3 [] \<and>
   invocations (snd (make_requests (example_env (fails_then_succeeds 3)) (PyList three_prompts)
     example_sampling 2 0 [])) = 1 \<and>
   sleeps (snd (make_requests (example_env (fails_then_succeeds 3)) (PyList three_prompts)
     example_sampling 2 0 [])) = []"
  using make_requests_retries_irrelevant [where ?r1.0 = 0 and ?r2.0 = 3 and tr = "[]"
      and e = "example_env (fails_then_succeeds 3)" and prompts = "PyList three_prompts"
      and sp = example_sampling and n = 2]
  by (auto simp: invocations_def sleeps_def)

text \<open>
  Claim C1, evaluated on the code. The retry budget is 3 and the service fails with a
  rate-limit error on its first three calls and would succeed on the fourth. The function
  calls the service once, does not wait, and the error leaves the function: there are
  neither four calls nor three waits.
\<close>

theorem make_requests_one_attempt:
  "make_requests (example_env (fails_then_succeeds 3)) (PyList three_prompts) example_sampling 2 3 []
     = (Inl RateLimitError,
        [Create (CompletionsCreate ''gpt-4o'' (PyList three_prompts) example_sampling 2)])"
  by (simp add: make_requests_def request_loop_def example_env_def fails_then_succeeds_def
      invocations_def)

text \<open>
  Claim C2, evaluated on the code. The service always fails with a rate-limit error and
  the retry budget is 3. After the one call the error leaves \<^verbatim>\<open>make_requests\<close>:
  no record with a null response is built for any of the three prompts.
\<close>

theorem make_requests_failure_propagates:
  "make_requests (example_env always_fails) (PyList three_prompts) example_sampling 2 3 []
     = (Inl RateLimitError,
        [Create (CompletionsCreate ''gpt-4o'' (PyList three_prompts) example_sampling 2)])"
  by (simp add: make_requests_def request_loop_def example_env_def always_fails_def)

section \<open>Batches\<close>

lemma py_slice_take_drop:
  "0 \<le> i \<Longrightarrow> 0 \<le> k \<Longrightarrow> py_slice xs i (i + k) = take (nat k) (drop (nat i) xs)"
  by (auto simp: py_slice_def slice_index_def Let_def min_def nat_add_distrib)

lemma range_from_step:
  "0 < S \<Longrightarrow> i < N \<Longrightarrow> range_from i N S = i # range_from (i + S) N S"
  by (subst range_from.simps) simp

lemma range_from_stop:
  "0 < S \<Longrightarrow> \<not> i < N \<Longrightarrow> range_from i N S = []"
  by (subst range_from.simps) simp

lemma range_from_negative:
  "S < 0 \<Longrightarrow> 0 \<le> N \<Longrightarrow> range_from 0 N S = []"
  by (subst range_from.simps) simp

lemma concat_slices:
  "0 < S \<Longrightarrow> 0 \<le> i \<Longrightarrow>
   concat (map (\<lambda>i. py_slice ps i (i + S)) (range_from i (int (length ps)) S)) = drop (nat i) ps"
proof (induction i "int (length ps)" S rule: range_from.induct)
  case (1 i S)
  show ?case
  proof (cases "i < int (length ps)")
    case True
    with 1 have IH: "concat (map (\<lambda>i. py_slice ps i (i + S)) (range_from (i + S) (int (length ps)) S))
        = drop (nat (i + S)) ps" by simp
    have "nat (i + S) = nat S + nat i" using 1(2,3) by (simp add: nat_add_distrib)
    then have "take (nat S) (drop (nat i) ps) @ drop (nat (i + S)) ps = drop (nat i) ps"
      by (simp add: drop_drop [symmetric] del: drop_drop)
    with True 1(2,3) IH show ?thesis
      by (simp add: range_from_step py_slice_take_drop)
  next
    case False
    with 1(2,3) show ?thesis
      by (simp add: range_from_stop)
  qed
qed

lemma butlast_slices:
  "0 < S \<Longrightarrow> 0 \<le> i \<Longrightarrow>
   b \<in> set (butlast (map (\<lambda>i. py_slice ps i (i + S)) (range_from i (int (length ps)) S)))
   \<Longrightarrow> int (length b) = S"
proof (induction i "int (length ps)" S rule: range_from.induct)
  case (1 i S)
  show ?case
  proof (cases "i < int (length ps)")
    case True
    note step = range_from_step [OF 1(2) True]
    show ?thesis
    proof (cases "i + S < int (length ps)")
      case False
      then have "range_from (i + S) (int (length ps)) S = []"
        using 1(2) by (simp add: range_from_stop)
      with 1(4) step show ?thesis by simp
    next
      case next_start: True
      then have ne: "range_from (i + S) (int (length ps)) S \<noteq> []"
        using 1(2) by (simp add: range_from_step)
      from 1(4) ne
      have "b = py_slice ps i (i + S) \<or>
            b \<in> set (butlast (map (\<lambda>i. py_slice ps i (i + S)) (range_from (i + S) (int (length ps)) S)))"
        by (simp add: step)
      then show ?thesis
      proof
        assume "b = py_slice ps i (i + S)"
        with next_start 1(2,3) show ?thesis
          by (simp add: py_slice_take_drop)
      next
        assume "b \<in> set (butlast (map (\<lambda>i. py_slice ps i (i + S)) (range_from (i + S) (int (length ps)) S)))"
        with 1(1) True 1(2,3) show ?thesis by simp
      qed
    qed
  next
    case False
    with 1(4) 1(2) show ?thesis
      by (simp add: range_from_stop)
  qed
qed

text \<open>
  Claim C8, as the code has it. For a positive batch size the batches concatenate to the
  prompt sequence, in order, and every batch but the last has exactly that many prompts.
  A batch size of 0 raises \<^verbatim>\<open>ValueError\<close> (from \<^verbatim>\<open>range\<close>). A negative batch size
  raises nothing: the range is empty and there are no batches.
\<close>

theorem batches_cover:
  "(0 < S \<longrightarrow>
      (\<exists>bs. batches ps S = Inr bs \<and> concat bs = ps \<and>
            (\<forall>b \<in> set (butlast bs). int (length b) = S))) \<and>
   (S = 0 \<longrightarrow> batches ps S = Inl ValueError) \<and>
   (S < 0 \<longrightarrow> batches ps S = Inr [])"
proof (intro conjI impI)
  assume pos: "0 < S"
  then have "batches ps S = Inr (map (\<lambda>i. py_slice ps i (i + S)) (range_from 0 (int (length ps)) S))"
    by (simp add: batches_def py_range_def)
  moreover have "concat (map (\<lambda>i. py_slice ps i (i + S)) (range_from 0 (int (length ps)) S)) = ps"
    using concat_slices [OF pos, of 0 ps] by simp
  moreover have "\<forall>b \<in> set (butlast (map (\<lambda>i. py_slice ps i (i + S)) (range_from 0 (int (length ps)) S))).
      int (length b) = S"
    using butlast_slices [OF pos, of 0 _ ps] by blast
  ultimately show "\<exists>bs. batches ps S = Inr bs \<and> concat bs = ps \<and>
            (\<forall>b \<in> set (butlast bs). int (length b) = S)"
    by blast
next
  assume "S = 0"
  then show "batches ps S = Inl ValueError" by (simp add: batches_def py_range_def)
next
  assume "S < 0"
  then show "batches ps S = Inr []"
    by (simp add: batches_def py_range_def range_from_negative)
qed

section \<open>Runs that end without an exception\<close>

lemma engine_is_no_parameter:
  "\<not> binds make_requests_parameters make_requests_defaults call_keywords"
  by (simp add: binds_def make_requests_parameters_def call_keywords_def)

lemma write_cached_hit:
  "cached_line e ex p = Some line \<Longrightarrow>
   write_cached e ex (p # ps) out = write_cached e ex ps (out @ [line])"
  by (auto simp: cached_line_def split: option.splits sum.splits)

lemma write_cached_miss:
  "cached_line e ex p = None \<Longrightarrow> \<exists>err. write_cached e ex (p # ps) out = (Inl err, out)"
  by (auto simp: cached_line_def split: option.splits sum.splits)

lemma write_cached_complete:
  "write_cached e ex ps out = (Inr (), out') \<Longrightarrow>
   out' = out @ map (\<lambda>p. the (cached_line e ex p)) ps \<and> (\<forall>p \<in> set ps. cached_line e ex p \<noteq> None)"
proof (induction ps arbitrary: out)
  case Nil
  then show ?case by simp
next
  case (Cons p ps)
  show ?case
  proof (cases "cached_line e ex p")
    case None
    from write_cached_miss [OF this, of ps out] Cons.prems show ?thesis by auto
  next
    case (Some line)
    with Cons.prems have "write_cached e ex ps (out @ [line]) = (Inr (), out')"
      by (simp add: write_cached_hit del: write_cached.simps)
    from Cons.IH [OF this] Some show ?thesis by simp
  qed
qed

lemma write_cached_hits:
  "\<forall>p \<in> set ps. cached_line e ex p \<noteq> None \<Longrightarrow>
   write_cached e ex ps out = (Inr (), out @ map (\<lambda>p. the (cached_line e ex p)) ps)"
proof (induction ps arbitrary: out)
  case Nil
  then show ?case by simp
next
  case (Cons p ps)
  then obtain line where l: "cached_line e ex p = Some line" by auto
  from Cons.prems have "\<forall>p \<in> set ps. cached_line e ex p \<noteq> None" by simp
  from Cons.IH [OF this, of "out @ [line]"] l show ?case
    by (simp add: write_cached_hit del: write_cached.simps)
qed

lemma all_cached_True:
  "all_cached ex ps = Inr True \<longleftrightarrow> (\<forall>p \<in> set ps. hashable p \<and> ex p \<noteq> None)"
  by (induction ps) auto

lemma batches_loop_complete:
  "batches_loop e a ex ps starts out tr = (Inr (), out', tr') \<Longrightarrow>
   tr' = tr \<and>
   out' = out @ map (\<lambda>p. the (cached_line e ex p))
                  (concat (map (\<lambda>i. py_slice ps i (i + request_batch_size a)) starts)) \<and>
   (\<forall>p \<in> set (concat (map (\<lambda>i. py_slice ps i (i + request_batch_size a)) starts)).
      hashable p \<and> cached_line e ex p \<noteq> None)"
proof (induction starts arbitrary: out)
  case Nil
  then show ?case by simp
next
  case (Cons i rest)
  let ?batch = "py_slice ps i (i + request_batch_size a)"
  from Cons.prems have hit: "all_cached ex ?batch = Inr True"
    by (auto simp: Let_def engine_is_no_parameter split: sum.splits bool.splits)
  with Cons.prems obtain out1 where w: "write_cached e ex ?batch out = (Inr (), out1)"
    and rest: "batches_loop e a ex ps rest out1 tr = (Inr (), out', tr')"
    by (auto simp: Let_def split: sum.splits prod.splits)
  from write_cached_complete [OF w] Cons.IH [OF rest] hit show ?case
    by (auto simp: all_cached_True)
qed

lemma batches_loop_hits:
  "\<forall>p \<in> set (concat (map (\<lambda>i. py_slice ps i (i + request_batch_size a)) starts)).
      hashable p \<and> cached_line e ex p \<noteq> None \<Longrightarrow>
   batches_loop e a ex ps starts out tr =
     (Inr (),
      out @ map (\<lambda>p. the (cached_line e ex p))
              (concat (map (\<lambda>i. py_slice ps i (i + request_batch_size a)) starts)),
      tr)"
proof (induction starts arbitrary: out)
  case Nil
  then show ?case by simp
next
  case (Cons i rest)
  let ?batch = "py_slice ps i (i + request_batch_size a)"
  from Cons.prems have "\<forall>p \<in> set ?batch. hashable p \<and> ex p \<noteq> None"
    by (auto simp: cached_line_def split: option.splits)
  then have hit: "all_cached ex ?batch = Inr True" by (simp add: all_cached_True)
  from Cons.prems have w: "write_cached e ex ?batch out =
      (Inr (), out @ map (\<lambda>p. the (cached_line e ex p)) ?batch)"
    by (intro write_cached_hits) auto
  from Cons.prems have "\<forall>p \<in> set (concat (map (\<lambda>i. py_slice ps i (i + request_batch_size a)) rest)).
      hashable p \<and> cached_line e ex p \<noteq> None" by auto
  from Cons.IH [OF this] hit w show ?case by (simp add: Let_def)
qed

lemma keyed_empty: "keyed Map.empty"
  by (simp add: keyed_def)

lemma keyed_update:
  "keyed m \<Longrightarrow> hashable p \<Longrightarrow> subscript d ''prompt'' = Inr p \<Longrightarrow> keyed (m(p \<mapsto> d))"
  by (simp add: keyed_def)

lemma read_existing_keyed:
  "read_existing e lines m = Inr m' \<Longrightarrow> keyed m \<Longrightarrow> keyed m'"
proof (induction lines arbitrary: m)
  case Nil
  then show ?case by simp
next
  case (Cons line lines)
  from Cons.prems(1) obtain d p where "loads e line = Inr d" and
    sub: "subscript d ''prompt'' = Inr p" and h: "hashable p" and
    rest: "read_existing e lines (m(p \<mapsto> d)) = Inr m'"
    by (auto split: sum.splits if_splits)
  from Cons.IH [OF rest keyed_update [OF Cons.prems(2) h sub]] show ?case .
qed

lemma load_existing_keyed: "load_existing e a fs = Inr ex \<Longrightarrow> keyed ex"
  by (auto simp: load_existing_def keyed_empty split: option.splits if_splits
      dest: read_existing_keyed)

lemma cached_line_cong: "m p = ex p \<Longrightarrow> cached_line e m p = cached_line e ex p"
  by (simp add: cached_line_def)

lemma cached_line_record:
  "cached_line e ex p = Some line \<Longrightarrow> \<exists>d. ex p = Some d \<and> dumps e d = Inr line"
  by (auto simp: cached_line_def split: option.splits sum.splits)

lemma read_existing_replay:
  assumes rt: "\<And>d l. dumps e d = Inr l \<Longrightarrow> loads e l = Inr d"
    and k: "keyed ex"
  shows "\<forall>p \<in> set qs. cached_line e ex p \<noteq> None \<Longrightarrow>
     \<exists>m'. read_existing e (map (\<lambda>p. the (cached_line e ex p)) qs) m = Inr m' \<and>
          (\<forall>p \<in> set qs. m' p = ex p) \<and> (\<forall>p. p \<notin> set qs \<longrightarrow> m' p = m p)"
proof (induction qs arbitrary: m)
  case Nil
  then show ?case by simp
next
  case (Cons q qs)
  then obtain line where l: "cached_line e ex q = Some line" by auto
  then obtain d where d: "ex q = Some d" "dumps e d = Inr line"
    using cached_line_record by blast
  from d k have key: "hashable q" "subscript d ''prompt'' = Inr q"
    by (auto simp: keyed_def)
  from Cons.prems have "\<forall>p \<in> set qs. cached_line e ex p \<noteq> None" by simp
  from Cons.IH [OF this, of "m(q \<mapsto> d)"] obtain m' where
    m': "read_existing e (map (\<lambda>p. the (cached_line e ex p)) qs) (m(q \<mapsto> d)) = Inr m'"
      "\<forall>p \<in> set qs. m' p = ex p" "\<forall>p. p \<notin> set qs \<longrightarrow> m' p = (m(q \<mapsto> d)) p"
    by blast
  have "read_existing e (map (\<lambda>p. the (cached_line e ex p)) (q # qs)) m = Inr m'"
    using l d key m'(1) rt [OF d(2)] by simp
  moreover have "\<forall>p \<in> set (q # qs). m' p = ex p"
    using m'(2,3) d(1) by (cases "q \<in> set qs") auto
  moreover have "\<forall>p. p \<notin> set (q # qs) \<longrightarrow> m' p = m p"
    using m'(3) by auto
  ultimately show ?case by blast
qed

lemma read_prompts_all_prompts:
  "read_prompts e a fs = Inr g \<Longrightarrow> all_prompts g = Some ps \<Longrightarrow>
   g = \<lparr>all_prompts = Some ps, all_prompt = None\<rparr> \<and> endswith (input_file a) ''.jsonl''"
  by (auto simp: read_prompts_def split: option.splits if_splits sum.splits)

lemma main_complete:
  assumes "main e a fs tr = (Inr (), fs', tr')"
  shows "\<exists>ex ps starts.
           load_existing e a fs = Inr ex \<and>
           read_prompts e a fs = Inr \<lparr>all_prompts = Some ps, all_prompt = None\<rparr> \<and>
           py_range 0 (int (length ps)) (request_batch_size a) = Inr starts \<and>
           fs' = fs(output_file a \<mapsto>
                   map (\<lambda>p. the (cached_line e ex p))
                     (concat (map (\<lambda>i. py_slice ps i (i + request_batch_size a)) starts))) \<and>
           tr' = tr \<and>
           (\<forall>p \<in> set (concat (map (\<lambda>i. py_slice ps i (i + request_batch_size a)) starts)).
              hashable p \<and> cached_line e ex p \<noteq> None)"
proof -
  from assms obtain ex where ex: "load_existing e a fs = Inr ex"
    by (auto simp: main_def split: sum.splits)
  with assms obtain g where g: "read_prompts e a fs = Inr g"
    by (auto simp: main_def split: sum.splits)
  with assms ex obtain ps where ps: "all_prompts g = Some ps"
    by (auto simp: main_def split: option.splits)
  with assms ex g obtain starts where
    st: "py_range 0 (int (length ps)) (request_batch_size a) = Inr starts"
    by (auto simp: main_def split: sum.splits)
  with assms ex g ps obtain out where
    loop: "batches_loop e a ex ps starts [] tr = (Inr (), out, tr')" and fs': "fs' = fs(output_file a \<mapsto> out)"
    by (auto simp: main_def split: prod.splits)
  from batches_loop_complete [OF loop] read_prompts_all_prompts [OF g ps] ex g st fs'
  show ?thesis by auto
qed

lemma read_prompts_cong:
  "input_file a' = input_file a \<Longrightarrow> fs' (input_file a) = fs (input_file a) \<Longrightarrow>
   read_prompts e a' fs' = read_prompts e a fs"
  by (auto simp: read_prompts_def split: option.splits)

text \<open>
  Claim C3, as the code has it. When the batch size is positive and the run ends without
  an exception, the output file has one line per prompt of the input, and the line at
  index \<open>i\<close> is the serialisation of a record whose \<^verbatim>\<open>prompt\<close> field is the prompt
  at index \<open>i\<close>.
\<close>

theorem complete_run_one_record_per_prompt:
  assumes run: "main e a fs tr = (Inr (), fs', tr')" and pos: "0 < request_batch_size a"
  shows "\<exists>ps out.
           read_prompts e a fs = Inr \<lparr>all_prompts = Some ps, all_prompt = None\<rparr> \<and>
           fs' (output_file a) = Some out \<and>
           length out = length ps \<and>
           (\<forall>i < length ps. \<exists>d. dumps e d = Inr (out ! i) \<and> subscript d ''prompt'' = Inr (ps ! i))"
proof -
  from main_complete [OF run] obtain ex ps starts where
    ex: "load_existing e a fs = Inr ex" and
    ps: "read_prompts e a fs = Inr \<lparr>all_prompts = Some ps, all_prompt = None\<rparr>" and
    st: "py_range 0 (int (length ps)) (request_batch_size a) = Inr starts" and
    fs': "fs' = fs(output_file a \<mapsto>
                   map (\<lambda>p. the (cached_line e ex p))
                     (concat (map (\<lambda>i. py_slice ps i (i + request_batch_size a)) starts)))" and
    hit: "\<forall>p \<in> set (concat (map (\<lambda>i. py_slice ps i (i + request_batch_size a)) starts)).
              hashable p \<and> cached_line e ex p \<noteq> None"
    by blast
  from st pos have "starts = range_from 0 (int (length ps)) (request_batch_size a)"
    by (simp add: py_range_def)
  with concat_slices [OF pos, of 0 ps]
  have cover: "concat (map (\<lambda>i. py_slice ps i (i + request_batch_size a)) starts) = ps"
    by simp
  let ?out = "map (\<lambda>p. the (cached_line e ex p)) ps"
  have "\<exists>d. dumps e d = Inr (?out ! i) \<and> subscript d ''prompt'' = Inr (ps ! i)"
    if "i < length ps" for i
  proof -
    from that cover have "ps ! i \<in> set (concat (map (\<lambda>i. py_slice ps i (i + request_batch_size a)) starts))"
      by simp
    with hit have "cached_line e ex (ps ! i) \<noteq> None" by blast
    then obtain line where l: "cached_line e ex (ps ! i) = Some line" by auto
    then obtain d where d: "ex (ps ! i) = Some d" "dumps e d = Inr line"
      using cached_line_record by blast
    from load_existing_keyed [OF ex] d(1) have "subscript d ''prompt'' = Inr (ps ! i)"
      by (simp add: keyed_def)
    with d(2) l that show ?thesis by auto
  qed
  with ps fs' cover show ?thesis by auto
qed

text \<open>
  Claim C6. Take a run that ends without an exception, with input and output at
  different paths, and a \<^verbatim>\<open>json\<close> module that reads back what it wrote. A second run
  with \<^verbatim>\<open>--use_existing_responses\<close> on the files the first run left ends without an
  exception, leaves every file as it was (the output file holds the same lines), and adds
  nothing to the trace: it calls the service zero times.
\<close>

theorem resumption_idempotent:
  assumes run: "main e a fs tr = (Inr (), fs1, tr1)"
    and paths: "input_file a \<noteq> output_file a"
    and roundtrip: "\<And>d line. dumps e d = Inr line \<Longrightarrow> loads e line = Inr d"
  shows "main e (a\<lparr>use_existing_responses := True\<rparr>) fs1 tr1 = (Inr (), fs1, tr1)"
proof -
  let ?a = "a\<lparr>use_existing_responses := True\<rparr>"
  from main_complete [OF run] obtain ex ps starts where
    ex: "load_existing e a fs = Inr ex" and
    ps: "read_prompts e a fs = Inr \<lparr>all_prompts = Some ps, all_prompt = None\<rparr>" and
    st: "py_range 0 (int (length ps)) (request_batch_size a) = Inr starts" and
    fs1: "fs1 = fs(output_file a \<mapsto>
                   map (\<lambda>p. the (cached_line e ex p))
                     (concat (map (\<lambda>i. py_slice ps i (i + request_batch_size a)) starts)))" and
    tr1: "tr1 = tr" and
    hit: "\<forall>p \<in> set (concat (map (\<lambda>i. py_slice ps i (i + request_batch_size a)) starts)).
              hashable p \<and> cached_line e ex p \<noteq> None"
    by blast
  let ?qs = "concat (map (\<lambda>i. py_slice ps i (i + request_batch_size a)) starts)"
  let ?lines = "map (\<lambda>p. the (cached_line e ex p)) ?qs"
  from hit have "\<forall>p \<in> set ?qs. cached_line e ex p \<noteq> None" by blast
  from read_existing_replay [OF roundtrip load_existing_keyed [OF ex] this, of Map.empty]
  obtain ex2 where ex2: "read_existing e ?lines Map.empty = Inr ex2"
    and same: "\<forall>p \<in> set ?qs. ex2 p = ex p"
    by blast
  have load2: "load_existing e ?a fs1 = Inr ex2"
    using ex2 fs1 by (simp add: load_existing_def)
  have prompts2: "read_prompts e ?a fs1 = Inr \<lparr>all_prompts = Some ps, all_prompt = None\<rparr>"
  proof -
    have "fs1 (input_file a) = fs (input_file a)" using paths fs1 by simp
    then have "read_prompts e ?a fs1 = read_prompts e a fs"
      by (intro read_prompts_cong) simp_all
    with ps show ?thesis by simp
  qed
  have same_line: "cached_line e ex2 p = cached_line e ex p" if "p \<in> set ?qs" for p
    using same that by (intro cached_line_cong) blast
  have lines2: "map (\<lambda>p. the (cached_line e ex2 p)) ?qs = ?lines"
    by (rule map_cong) (simp_all add: same_line)
  have "\<forall>p \<in> set (concat (map (\<lambda>i. py_slice ps i (i + request_batch_size ?a)) starts)).
      hashable p \<and> cached_line e ex2 p \<noteq> None"
    using hit same_line by simp
  from batches_loop_hits [OF this, of "[]" tr]
  have loop2: "batches_loop e ?a ex2 ps starts [] tr = (Inr (), ?lines, tr)"
    using lines2 by simp
  show ?thesis
  proof -
    have "main e ?a fs1 tr = (Inr (), fs1(output_file a \<mapsto> ?lines), tr)"
      using load2 prompts2 st loop2 by (simp add: main_def)
    also have "fs1(output_file a \<mapsto> ?lines) = fs1" using fs1 by simp
    finally show ?thesis using tr1 by simp
  qed
qed

section \<open>The example runs\<close>

lemmas example_defs =
  example_args_def example_files_def example_env_def example_loads_def example_dumps_def
  json_table_def prompt_line_def prompt_object_def record_line_def record_object_def

lemmas run_defs =
  main_def load_existing_def read_prompts_def endswith_def py_range_def py_slice_def
  slice_index_def Let_def

lemma run_negative_batch_size:
  "main (example_env always_fails) (example_args ''in.jsonl'' (- 1) False)
     (example_files ''in.jsonl'' [prompt_line ''A''] None) []
   = (Inr (), (example_files ''in.jsonl'' [prompt_line ''A''] None)(''out/responses.jsonl'' \<mapsto> []), [])"
  by (simp add: run_defs example_defs range_from_negative)

lemma run_partly_cached:
  "main (example_env always_fails) (example_args ''in.jsonl'' 4 True)
     (example_files ''in.jsonl'' (map prompt_line [''A'', ''B'', ''C'', ''D''])
        (Some [record_line ''A'' ''a'' ''t0'', record_line ''B'' ''b'' ''t1''])) []
   = (Inl TypeError,
      (example_files ''in.jsonl'' (map prompt_line [''A'', ''B'', ''C'', ''D''])
        (Some [record_line ''A'' ''a'' ''t0'', record_line ''B'' ''b'' ''t1'']))
        (''out/responses.jsonl'' \<mapsto> []), [])"
  by (simp add: run_defs example_defs range_from_step range_from_stop engine_is_no_parameter)


lemma run_text_input:
  "main (example_env always_fails) (example_args ''prompts.txt'' 2 False)
     (example_files ''prompts.txt'' [''A'', ''B''] None) []
   = (Inl NameError,
      (example_files ''prompts.txt'' [''A'', ''B''] None)(''out/responses.jsonl'' \<mapsto> []), [])"
  by (simp add: run_defs example_defs)

lemma run_fully_cached:
  "main (example_env always_fails) (example_args ''in.jsonl'' 2 True)
     (example_files ''in.jsonl'' (map prompt_line [''A'', ''B'', ''C''])
        (Some [record_line ''A'' ''a'' ''t0'', record_line ''B'' ''b'' ''t1'',
               record_line ''C'' ''c'' ''t2''])) []
   = (Inr (),
      example_files ''in.jsonl'' (map prompt_line [''A'', ''B'', ''C''])
        (Some [record_line ''A'' ''a'' ''t0'', record_line ''B'' ''b'' ''t1'',
               record_line ''C'' ''c'' ''t2'']), [])"
  by (simp add: run_defs example_defs range_from_step range_from_stop)

lemma example_roundtrip:
  "dumps (example_env service) d = Inr line \<Longrightarrow> loads (example_env service) line = Inr d"
  by (auto simp: example_defs split: option.splits if_splits)

lemma batches_three_by_two:
  "batches three_prompts 2 = Inr [[PyStr ''A'', PyStr ''B''], [PyStr ''C'']]"
  by (simp add: batches_def py_range_def three_prompts_def range_from_step range_from_stop
      py_slice_def slice_index_def)

text \<open>
  Claim C8 on three prompts: a batch size of 2 gives the batches of two and one prompts,
  a batch size of 0 raises.
\<close>

theorem batches_cover_witness:
  "(0::int) < 2 \<and>
   (\<exists>bs. batches three_prompts 2 = Inr bs \<and> concat bs = three_prompts \<and>
         (\<forall>b \<in> set (butlast bs). int (length b) = 2)) \<and>
   batches three_prompts 2 = Inr [[PyStr ''A'', PyStr ''B''], [PyStr ''C'']] \<and>
   batches three_prompts 0 = Inl ValueError"
  using batches_cover [of 2 three_prompts] batches_cover [of 0 three_prompts]
    batches_three_by_two
  by simp

text \<open>
  Claim C8 as stated fails for a negative batch size: no error, no batches.
\<close>

theorem batches_negative_size_counterexample:
  "batches three_prompts (- 1) = Inr []"
  by (simp add: batches_def py_range_def range_from_negative)

text \<open>
  Claim C3 on a run whose three prompts are all in the store, with batch size 2.
\<close>

theorem complete_run_witness:
  "\<exists>ps out.
     read_prompts (example_env always_fails) (example_args ''in.jsonl'' 2 True)
       (example_files ''in.jsonl'' (map prompt_line [''A'', ''B'', ''C''])
          (Some [record_line ''A'' ''a'' ''t0'', record_line ''B'' ''b'' ''t1'',
                 record_line ''C'' ''c'' ''t2'']))
       = Inr \<lparr>all_prompts = Some ps, all_prompt = None\<rparr> \<and>
     ps = three_prompts \<and>
     out = [record_line ''A'' ''a'' ''t0'', record_line ''B'' ''b'' ''t1'',
            record_line ''C'' ''c'' ''t2''] \<and>
     length out = length ps \<and>
     (\<forall>i < length ps. \<exists>d. dumps (example_env always_fails) d = Inr (out ! i) \<and>
        subscript d ''prompt'' = Inr (ps ! i))"
proof -
  have pos: "0 < request_batch_size (example_args ''in.jsonl'' 2 True)"
    by (simp add: example_args_def)
  from complete_run_one_record_per_prompt [OF run_fully_cached pos]
  obtain ps out where
    ps: "read_prompts (example_env always_fails) (example_args ''in.jsonl'' 2 True)
       (example_files ''in.jsonl'' (map prompt_line [''A'', ''B'', ''C''])
          (Some [record_line ''A'' ''a'' ''t0'', record_line ''B'' ''b'' ''t1'',
                 record_line ''C'' ''c'' ''t2'']))
       = Inr \<lparr>all_prompts = Some ps, all_prompt = None\<rparr>"
    and out: "example_files ''in.jsonl'' (map prompt_line [''A'', ''B'', ''C''])
          (Some [record_line ''A'' ''a'' ''t0'', record_line ''B'' ''b'' ''t1'',
                 record_line ''C'' ''c'' ''t2''])
          (output_file (example_args ''in.jsonl'' 2 True)) = Some out"
    and rest: "length out = length ps"
      "\<forall>i < length ps. \<exists>d. dumps (example_env always_fails) d = Inr (out ! i) \<and>
        subscript d ''prompt'' = Inr (ps ! i)"
    by blast
  from ps have "ps = three_prompts"
    by (simp add: run_defs example_defs three_prompts_def)
  moreover from out have "out = [record_line ''A'' ''a'' ''t0'', record_line ''B'' ''b'' ''t1'',
            record_line ''C'' ''c'' ''t2'']"
    by (simp add: example_args_def example_files_def)
  ultimately show ?thesis using ps rest by blast
qed

text \<open>
  Claim C3 as stated fails for a negative batch size: with one prompt in the input the
  run ends without an exception and the output file is empty.
\<close>

theorem complete_run_counterexample:
  "main (example_env always_fails) (example_args ''in.jsonl'' (- 1) False)
     (example_files ''in.jsonl'' [prompt_line ''A''] None) []
   = (Inr (), (example_files ''in.jsonl'' [prompt_line ''A''] None)(''out/responses.jsonl'' \<mapsto> []), [])
   \<and> read_prompts (example_env always_fails) (example_args ''in.jsonl'' (- 1) False)
     (example_files ''in.jsonl'' [prompt_line ''A''] None)
   = Inr \<lparr>all_prompts = Some [PyStr ''A''], all_prompt = None\<rparr>"
  using run_negative_batch_size by (simp add: run_defs example_defs)

text \<open>
  Claim C6 on the run with three stored prompts: running again changes nothing and calls
  the service zero times.
\<close>

theorem resumption_idempotent_witness:
  "main (example_env always_fails) ((example_args ''in.jsonl'' 2 True)\<lparr>use_existing_responses := True\<rparr>)
     (example_files ''in.jsonl'' (map prompt_line [''A'', ''B'', ''C''])
        (Some [record_line ''A'' ''a'' ''t0'', record_line ''B'' ''b'' ''t1'',
               record_line ''C'' ''c'' ''t2''])) []
   = (Inr (),
      example_files ''in.jsonl'' (map prompt_line [''A'', ''B'', ''C''])
        (Some [record_line ''A'' ''a'' ''t0'', record_line ''B'' ''b'' ''t1'',
               record_line ''C'' ''c'' ''t2'']), [])"
proof -
  have paths: "input_file (example_args ''in.jsonl'' 2 True) \<noteq> output_file (example_args ''in.jsonl'' 2 True)"
    by (simp add: example_args_def)
  show ?thesis
    by (rule resumption_idempotent [OF run_fully_cached paths example_roundtrip])
qed

text \<open>
  Claim C5, evaluated on the code. A batch of four prompts of which two are in the store
  is not a full hit, so line 202 calls \<^verbatim>\<open>make_requests\<close> with the keyword
  \<^verbatim>\<open>engine\<close>, which is no parameter of the function: the call raises
  \<^verbatim>\<open>TypeError\<close> before its body runs. The service is never called, no record is
  written, and the output file, already opened for writing, is left empty.
\<close>

theorem partly_cached_batch_aborts:
  "main (example_env always_fails) (example_args ''in.jsonl'' 4 True)
     (example_files ''in.jsonl'' (map prompt_line [''A'', ''B'', ''C'', ''D''])
        (Some [record_line ''A'' ''a'' ''t0'', record_line ''B'' ''b'' ''t1''])) []
   = (Inl TypeError,
      (example_files ''in.jsonl'' (map prompt_line [''A'', ''B'', ''C'', ''D''])
        (Some [record_line ''A'' ''a'' ''t0'', record_line ''B'' ''b'' ''t1'']))
        (''out/responses.jsonl'' \<mapsto> []), [])"
  by (rule run_partly_cached)

text \<open>
  Claim C7, evaluated on the code. For an input file whose name does not end in
  \<^verbatim>\<open>.jsonl\<close> the stripped and unescaped lines are bound to the name \<^verbatim>\<open>all_prompt\<close>;
  line 196 reads \<^verbatim>\<open>all_prompts\<close>, which was never assigned, and the run ends with
  \<^verbatim>\<open>NameError\<close>: no prompt is batched or processed.
\<close>

theorem text_input_aborts:
  "read_prompts (example_env always_fails) (example_args ''prompts.txt'' 2 False)
     (example_files ''prompts.txt'' [''A'', [CHR ''B'', CHR 0x5C, CHR ''n'', CHR ''C'']] None)
   = Inr \<lparr>all_prompts = None,
          all_prompt = Some [PyStr ''A'', PyStr [CHR ''B'', CHR 0x0A, CHR ''C'']]\<rparr>
   \<and> main (example_env always_fails) (example_args ''prompts.txt'' 2 False)
     (example_files ''prompts.txt'' [''A'', [CHR ''B'', CHR 0x5C, CHR ''n'', CHR ''C'']] None) []
   = (Inl NameError,
      (example_files ''prompts.txt'' [''A'', [CHR ''B'', CHR 0x5C, CHR ''n'', CHR ''C'']] None)
        (''out/responses.jsonl'' \<mapsto> []), [])"
  by (simp add: run_defs example_defs text_prompts_def strip_def is_space_def)

section \<open>What every run does\<close>

lemma batches_loop_trace:
  "snd (snd (batches_loop e a ex ps starts out tr)) = tr"
proof (induction starts arbitrary: out)
  case Nil
  then show ?case by simp
next
  case (Cons i rest)
  show ?case
  proof (cases "all_cached ex (py_slice ps i (i + request_batch_size a))")
    case (Inl err)
    then show ?thesis by (simp add: Let_def)
  next
    case (Inr hit)
    show ?thesis
    proof (cases hit)
      case False
      with Inr show ?thesis by (simp add: Let_def engine_is_no_parameter)
    next
      case True
      with Inr Cons.IH show ?thesis
        by (simp add: Let_def split: prod.splits sum.splits)
    qed
  qed
qed

text \<open>
  Property X1. Whatever the arguments, the files and the surroundings, the script body
  adds nothing to the trace: it never calls the remote service, never waits and never
  reads the clock. A batch is either replayed from the store or ends the run at the call
  of \<^verbatim>\<open>make_requests\<close>.
\<close>

theorem main_never_calls_service:
  "snd (snd (main e a fs tr)) = tr"
proof -
  have "snd (snd (case batches_loop e a ex ps starts [] tr of
                    (r, out, tr') \<Rightarrow> (r, fs(output_file a \<mapsto> out), tr'))) = tr"
    for ex ps starts
    using batches_loop_trace [of e a ex ps starts "[]" tr] by (simp add: case_prod_beta)
  then show ?thesis
    by (simp add: main_def split: sum.splits option.splits)
qed

text \<open>
  Property X2. When the batch size is positive and every prompt of the input has a record
  in the store that can be serialised, the run ends without an exception, writes the
  stored records in input order and leaves the trace as it was.
\<close>

theorem cached_run_replays:
  assumes "load_existing e a fs = Inr ex"
    and "read_prompts e a fs = Inr \<lparr>all_prompts = Some ps, all_prompt = None\<rparr>"
    and pos: "0 < request_batch_size a"
    and hits: "\<forall>p \<in> set ps. hashable p \<and> cached_line e ex p \<noteq> None"
  shows "main e a fs tr =
           (Inr (), fs(output_file a \<mapsto> map (\<lambda>p. the (cached_line e ex p)) ps), tr)"
proof -
  let ?starts = "range_from 0 (int (length ps)) (request_batch_size a)"
  have cover: "concat (map (\<lambda>i. py_slice ps i (i + request_batch_size a)) ?starts) = ps"
    using concat_slices [OF pos, of 0 ps] by simp
  with hits have "\<forall>p \<in> set (concat (map (\<lambda>i. py_slice ps i (i + request_batch_size a)) ?starts)).
      hashable p \<and> cached_line e ex p \<noteq> None" by simp
  from batches_loop_hits [OF this, of "[]" tr] cover
  have "batches_loop e a ex ps ?starts [] tr =
      (Inr (), map (\<lambda>p. the (cached_line e ex p)) ps, tr)" by simp
  with assms(1,2) pos show ?thesis
    by (simp add: main_def py_range_def)
qed

text \<open>Property X2 on the run with three stored prompts.\<close>

theorem cached_run_replays_witness:
  "main (example_env always_fails) (example_args ''in.jsonl'' 2 True)
     (example_files ''in.jsonl'' (map prompt_line [''A'', ''B'', ''C''])
        (Some [record_line ''A'' ''a'' ''t0'', record_line ''B'' ''b'' ''t1'',
               record_line ''C'' ''c'' ''t2''])) []
   = (Inr (),
      (example_files ''in.jsonl'' (map prompt_line [''A'', ''B'', ''C''])
        (Some [record_line ''A'' ''a'' ''t0'', record_line ''B'' ''b'' ''t1'',
               record_line ''C'' ''c'' ''t2'']))
      (''out/responses.jsonl'' \<mapsto>
         [record_line ''A'' ''a'' ''t0'', record_line ''B'' ''b'' ''t1'',
          record_line ''C'' ''c'' ''t2'']), [])"
proof -
  let ?e = "example_env always_fails"
  let ?a = "example_args ''in.jsonl'' 2 True"
  let ?fs = "example_files ''in.jsonl'' (map prompt_line [''A'', ''B'', ''C''])
        (Some [record_line ''A'' ''a'' ''t0'', record_line ''B'' ''b'' ''t1'',
               record_line ''C'' ''c'' ''t2''])"
  let ?ex = "[PyStr ''A'' \<mapsto> record_object ''A'' ''a'' ''t0'',
              PyStr ''B'' \<mapsto> record_object ''B'' ''b'' ''t1'',
              PyStr ''C'' \<mapsto> record_object ''C'' ''c'' ''t2'']"
  have 1: "load_existing ?e ?a ?fs = Inr ?ex"
    by (simp add: run_defs example_defs)
  have 2: "read_prompts ?e ?a ?fs = Inr \<lparr>all_prompts = Some three_prompts, all_prompt = None\<rparr>"
    by (simp add: run_defs example_defs three_prompts_def)
  have 3: "0 < request_batch_size ?a" by (simp add: example_args_def)
  have 4: "\<forall>p \<in> set three_prompts. hashable p \<and> cached_line ?e ?ex p \<noteq> None"
    by (simp add: three_prompts_def cached_line_def example_defs)
  from cached_run_replays [OF 1 2 3 4, of "[]"] show ?thesis
    by (simp add: three_prompts_def cached_line_def example_defs)
qed

text \<open>
  Property X3. A run with a negative batch size that ends without an exception has
  handled no batch: the output file is empty and the trace is as it was.
\<close>

theorem negative_batch_size_writes_nothing:
  assumes run: "main e a fs tr = (Inr (), fs', tr')" and neg: "request_batch_size a < 0"
  shows "fs' (output_file a) = Some [] \<and> tr' = tr"
proof -
  from main_complete [OF run] obtain ex ps starts where
    st: "py_range 0 (int (length ps)) (request_batch_size a) = Inr starts" and
    fs': "fs' = fs(output_file a \<mapsto>
                   map (\<lambda>p. the (cached_line e ex p))
                     (concat (map (\<lambda>i. py_slice ps i (i + request_batch_size a)) starts)))" and
    tr': "tr' = tr"
    by blast
  from st neg have "starts = []"
    by (simp add: py_range_def range_from_negative)
  with fs' tr' show ?thesis by simp
qed

text \<open>Property X3 on the run with one prompt and batch size -1.\<close>

theorem negative_batch_size_writes_nothing_witness:
  "((example_files ''in.jsonl'' [prompt_line ''A''] None)(''out/responses.jsonl'' \<mapsto> []))
     (output_file (example_args ''in.jsonl'' (- 1) False)) = Some [] \<and>
   request_batch_size (example_args ''in.jsonl'' (- 1) False) < 0"
proof -
  have neg: "request_batch_size (example_args ''in.jsonl'' (- 1) False) < 0"
    by (simp add: example_args_def)
  from negative_batch_size_writes_nothing [OF run_negative_batch_size neg] neg
  show ?thesis by simp
qed

end
